theory Spec2Isabelle
  imports Main
begin

section \<open>Promises, errors and JavaScript maps\<close>

text \<open>
  Every exception of the source is a value of \<open>error\<close>. A promise is modelled by the
  state it finally reaches: resolved with a value, rejected with an error, or never
  settled (\<open>Pending\<close>).
\<close>

datatype error =
  DerivationError | RegistrationError | NotFoundError | AuthorityError
  | DecryptionError | StoreError | SyntaxError

datatype 'a promise = Resolved 'a | Rejected error | Pending

text \<open>\<open>p.then(f)\<close> with a callback that returns a promise and touches no state.\<close>

fun then_p :: "'a promise \<Rightarrow> ('a \<Rightarrow> 'b promise) \<Rightarrow> 'b promise" where
  "then_p (Resolved x) f = f x"
| "then_p (Rejected e) f = Rejected e"
| "then_p Pending f = Pending"

text \<open>\<open>p.then(f)\<close> with a callback that reads and writes the state \<open>'s\<close>.\<close>

fun then_s :: "'a promise \<Rightarrow> ('a \<Rightarrow> 's \<Rightarrow> 'b promise \<times> 's) \<Rightarrow> 's \<Rightarrow> 'b promise \<times> 's" where
  "then_s (Resolved x) f s = f x s"
| "then_s (Rejected e) f s = (Rejected e, s)"
| "then_s Pending f s = (Pending, s)"

text \<open>
  A JavaScript \<open>Map<string, string>\<close> is an association list in insertion order with
  pairwise different keys. \<open>Map.set\<close> overwrites the value of a key that is present, in
  place, and appends a key that is new.
\<close>

type_synonym jsmap = "(string \<times> string) list"

fun Map_set :: "string \<Rightarrow> string \<Rightarrow> jsmap \<Rightarrow> jsmap" where
  "Map_set k v [] = [(k, v)]"
| "Map_set k v ((k', v') # m) = (if k = k' then (k, v) # m else (k', v') # Map_set k v m)"

definition Map_has :: "string \<Rightarrow> jsmap \<Rightarrow> bool" where
  "Map_has k m = (k \<in> set (map fst m))"

definition Map_get :: "string \<Rightarrow> jsmap \<Rightarrow> string option" where
  "Map_get k m = map_of m k"

text \<open>
  \<open>String.prototype.toLowerCase\<close> on the code units U+0000 to U+00FF, which are the
  characters of a HOL string: the letters A to Z and the Latin-1 capitals U+00C0 to U+00DE
  (without the multiplication sign U+00D7) move up by 32, every other character stays.
\<close>

definition toLowerCase_char :: "char \<Rightarrow> char" where
  "toLowerCase_char c =
     (let n = (of_char c :: nat)
      in if (65 \<le> n \<and> n \<le> 90) \<or> (192 \<le> n \<and> n \<le> 214) \<or> (216 \<le> n \<and> n \<le> 222)
         then char_of (n + 32) else c)"

definition toLowerCase :: "string \<Rightarrow> string" where
  "toLowerCase s = map toLowerCase_char s"

section \<open>Collaborators of the Vault Manager\<close>

text \<open>
  \<open>MessageEncrypt\<close>, \<open>MessageDecrypt\<close>, \<open>CryptoUtils\<close>, \<open>JSON.parse\<close> and
  \<open>JsonUtils.jsonToMap\<close> are called by \<open>ProfileManager.ts\<close> and are not part of it; they
  are parameters of the model. Each of them is called synchronously by the source and may
  throw. \<open>encryptAes256\<close> draws fresh randomness on every call: its first argument is the
  randomness of the call.
\<close>

type_synonym iv = string

record 'j collaborators =
  generatePasswordForFiled :: "string \<Rightarrow> error + string"
  encryptAes256 :: "iv \<Rightarrow> string \<Rightarrow> string \<Rightarrow> error + string"
  decryptAes256 :: "string \<Rightarrow> string \<Rightarrow> error + string"
  decryptMessage :: "string \<Rightarrow> string \<Rightarrow> error + string"
  JSON_parse :: "string \<Rightarrow> error + 'j"
  jsonToMap :: "'j \<Rightarrow> error + jsmap"

section \<open>The Vault Store\<close>

text \<open>
  Modelled from the spec: the Vault Store (\<open>ClientDataRepository\<close>, whose implementation
  is not among the sources). \<open>getData(publicKey)\<close> returns the mapping stored for the key,
  the empty mapping when there is none; \<open>updateData(publicKey, mapping)\<close> stores the
  mapping and echoes back what was written; an unreachable store rejects every call with
  its error. The store records every call it receives.
\<close>

datatype store_call = GetData string | UpdateData string jsmap

record store =
  vaults :: "string \<Rightarrow> jsmap option"
  failure :: "error option"
  calls :: "store_call list"

definition vault_of :: "store \<Rightarrow> string \<Rightarrow> jsmap" where
  "vault_of st pk = (case vaults st pk of None \<Rightarrow> [] | Some m \<Rightarrow> m)"

definition ClientDataRepository_getData :: "string \<Rightarrow> store \<Rightarrow> jsmap promise \<times> store" where
  "ClientDataRepository_getData pk st =
     ((case failure st of Some e \<Rightarrow> Rejected e | None \<Rightarrow> Resolved (vault_of st pk)),
      st\<lparr>calls := calls st @ [GetData pk]\<rparr>)"

definition ClientDataRepository_updateData ::
    "string \<Rightarrow> jsmap \<Rightarrow> store \<Rightarrow> jsmap promise \<times> store" where
  "ClientDataRepository_updateData pk m st =
     (case failure st of
        Some e \<Rightarrow> (Rejected e, st\<lparr>calls := calls st @ [UpdateData pk m]\<rparr>)
      | None \<Rightarrow> (Resolved m,
                 st\<lparr>vaults := (vaults st)(pk \<mapsto> m), calls := calls st @ [UpdateData pk m]\<rparr>))"

section \<open>Accounts\<close>

text \<open>
  Modelled from the spec: the class \<open>Account\<close> (\<open>repository/models/Account\<close>, not among
  the sources): a public key with a message and its signature, both empty until they are
  supplied.
\<close>

record Account =
  publicKey :: string
  message :: string
  sig :: string

definition new_Account :: "string \<Rightarrow> Account" where
  "new_Account pk = \<lparr>publicKey = pk, message = [], sig = []\<rparr>"

section \<open>ProfileManager\<close>

record ProfileManager =
  account :: Account

definition onChangeAccount :: "Account \<Rightarrow> ProfileManager \<Rightarrow> ProfileManager" where
  "onChangeAccount a pm = pm\<lparr>account := a\<rparr>"

definition getRawData :: "string \<Rightarrow> store \<Rightarrow> jsmap promise \<times> store" where
  "getRawData anyPublicKey st = ClientDataRepository_getData anyPublicKey st"

text \<open>
  The \<open>forEach\<close> of \<open>prepareData\<close>: the entries still to visit, the index of the next
  entry (it selects the randomness of an encryption) and the \<open>result\<close> map built so far.
  The password is derived from \<open>key\<close> as the caller wrote it; the result is stored under
  \<open>key.toLowerCase()\<close>. A throw ends the loop.
\<close>

fun prepareData_forEach ::
    "'j collaborators \<Rightarrow> bool \<Rightarrow> (nat \<Rightarrow> iv) \<Rightarrow> nat \<Rightarrow> jsmap \<Rightarrow> jsmap \<Rightarrow> error + jsmap" where
  "prepareData_forEach env encrypt rnd i [] result = Inr result"
| "prepareData_forEach env encrypt rnd i ((key, val) # rest) result =
     (case generatePasswordForFiled env key of
        Inl e \<Rightarrow> Inl e
      | Inr pass \<Rightarrow>
          (case (if encrypt then encryptAes256 env (rnd i) val pass
                 else decryptAes256 env val pass) of
             Inl e \<Rightarrow> Inl e
           | Inr changedValue \<Rightarrow>
               prepareData_forEach env encrypt rnd (Suc i) rest
                 (Map_set (toLowerCase key) changedValue result)))"

text \<open>
  The loop runs inside the executor of \<open>new Promise\<close>: an exception thrown there rejects
  the promise, and \<open>resolve(result)\<close> is reached only when every entry went through.
\<close>

definition prepareData ::
    "'j collaborators \<Rightarrow> jsmap \<Rightarrow> bool \<Rightarrow> (nat \<Rightarrow> iv) \<Rightarrow> jsmap promise" where
  "prepareData env data encrypt rnd =
     (case prepareData_forEach env encrypt rnd 0 data [] of
        Inl e \<Rightarrow> Rejected e
      | Inr result \<Rightarrow> Resolved result)"

text \<open>\<open>getData\<close> decrypts, so it draws no randomness.\<close>

definition getData :: "'j collaborators \<Rightarrow> ProfileManager \<Rightarrow> store \<Rightarrow> jsmap promise \<times> store" where
  "getData env this st =
     (case getRawData (publicKey (account this)) st of
        (p, st') \<Rightarrow> (then_p p (\<lambda>data. prepareData env data False (\<lambda>_. [])), st'))"

definition updateData ::
    "'j collaborators \<Rightarrow> ProfileManager \<Rightarrow> jsmap \<Rightarrow> (nat \<Rightarrow> iv) \<Rightarrow> store
      \<Rightarrow> jsmap promise \<times> store" where
  "updateData env this data rnd st =
     then_s (prepareData env data True rnd)
       (\<lambda>encrypted. ClientDataRepository_updateData (publicKey (account this)) encrypted) st"

text \<open>
  The \<open>forEach\<close> of \<open>getAuthorizedData\<close> over the disclosed passwords: a field that the
  raw vault has is decrypted with the disclosed password and set in \<open>result\<close>; the
  \<open>catch\<close> of the source drops a field whose decryption throws. (\<open>get\<close> is called only
  after \<open>has\<close> answered true, so its \<open>None\<close> case is never taken.)
\<close>

fun getAuthorizedData_forEach ::
    "'j collaborators \<Rightarrow> jsmap \<Rightarrow> jsmap \<Rightarrow> jsmap \<Rightarrow> jsmap" where
  "getAuthorizedData_forEach env recipientData [] result = result"
| "getAuthorizedData_forEach env recipientData ((key, val) # rest) result =
     getAuthorizedData_forEach env recipientData rest
       (if Map_has key recipientData then
          (case Map_get key recipientData of
             None \<Rightarrow> result
           | Some data \<Rightarrow>
               (case decryptAes256 env data val of
                  Inl e \<Rightarrow> result
                | Inr clear \<Rightarrow> Map_set key clear result))
        else result)"

text \<open>
  \<open>getAuthorizedData\<close> builds its promise with \<open>new Promise(resolve => ...)\<close>. A throw of
  \<open>decryptMessage\<close>, \<open>JSON.parse\<close> or \<open>jsonToMap\<close> happens in the executor and rejects the
  promise. The raw vault is fetched afterwards, and \<open>resolve\<close> is called only in the
  fulfilment callback of that fetch: there is no rejection callback, so when the fetch
  is rejected the promise that was returned is never settled.
\<close>

definition getAuthorizedData ::
    "'j collaborators \<Rightarrow> string \<Rightarrow> string \<Rightarrow> store \<Rightarrow> jsmap promise \<times> store" where
  "getAuthorizedData env recipientPk encryptedData st =
     (case decryptMessage env recipientPk encryptedData of
        Inl e \<Rightarrow> (Rejected e, st)
      | Inr strDecrypt \<Rightarrow>
          (case JSON_parse env strDecrypt of
             Inl e \<Rightarrow> (Rejected e, st)
           | Inr jsonDecrypt \<Rightarrow>
               (case jsonToMap env jsonDecrypt of
                  Inl e \<Rightarrow> (Rejected e, st)
                | Inr arrayResponse \<Rightarrow>
                    (case getRawData recipientPk st of
                       (Resolved recipientData, st') \<Rightarrow>
                         (Resolved (getAuthorizedData_forEach env recipientData arrayResponse []),
                          st')
                     | (Rejected e, st') \<Rightarrow> (Pending, st')
                     | (Pending, st') \<Rightarrow> (Pending, st')))))"

section \<open>AccountManager\<close>

text \<open>
  The key-pair helper, the message signer and the account repository are the
  collaborators of \<open>AccountManager.ts\<close>; each returns a promise.
\<close>

record KeyPair =
  keyPair_privateKey :: string
  keyPair_publicKey :: string

record identity_collaborators =
  createKeyPair :: "string \<Rightarrow> KeyPair promise"
  signMessage :: "string \<Rightarrow> string promise"
  accountRepository_registration :: "Account \<Rightarrow> Account promise"
  accountRepository_checkAccount :: "Account \<Rightarrow> Account promise"
  accountRepository_unsubscribe :: "Account \<Rightarrow> Account promise"

text \<open>
  The \<open>BehaviorSubject<Account>\<close> that holds the current identity: its current value and
  the notifications it has emitted, oldest first. \<open>next\<close> replaces the value and emits it.
\<close>

record BehaviorSubject =
  currentValue :: Account
  emitted :: "Account list"

definition BehaviorSubject_next :: "Account \<Rightarrow> BehaviorSubject \<Rightarrow> BehaviorSubject" where
  "BehaviorSubject_next a s = s\<lparr>currentValue := a, emitted := emitted s @ [a]\<rparr>"

definition generateAccount :: "KeyPair \<Rightarrow> Account promise" where
  "generateAccount keyPair = Resolved (new_Account (keyPair_publicKey keyPair))"

definition onGetAccount ::
    "identity_collaborators \<Rightarrow> Account \<Rightarrow> string \<Rightarrow> BehaviorSubject
      \<Rightarrow> Account promise \<times> BehaviorSubject" where
  "onGetAccount idc acc msg s =
     then_s (signMessage idc msg)
       (\<lambda>sg s'. let acc' = acc\<lparr>message := msg, sig := sg\<rparr>
                in (Resolved acc', BehaviorSubject_next acc' s')) s"

definition getAccount ::
    "identity_collaborators \<Rightarrow> Account \<Rightarrow> string \<Rightarrow> BehaviorSubject
      \<Rightarrow> Account promise \<times> BehaviorSubject" where
  "getAccount idc acc msg s =
     then_s (accountRepository_checkAccount idc acc) (\<lambda>acc'. onGetAccount idc acc' msg) s"

definition registration ::
    "identity_collaborators \<Rightarrow> string \<Rightarrow> string \<Rightarrow> BehaviorSubject
      \<Rightarrow> Account promise \<times> BehaviorSubject" where
  "registration idc mnemonicPhrase msg s =
     then_s (then_p (then_p (createKeyPair idc mnemonicPhrase) generateAccount)
               (accountRepository_registration idc))
       (\<lambda>acc. onGetAccount idc acc msg) s"

definition checkAccount ::
    "identity_collaborators \<Rightarrow> string \<Rightarrow> string \<Rightarrow> BehaviorSubject
      \<Rightarrow> Account promise \<times> BehaviorSubject" where
  "checkAccount idc mnemonicPhrase msg s =
     then_s (then_p (createKeyPair idc mnemonicPhrase) generateAccount)
       (\<lambda>acc. getAccount idc acc msg) s"

definition unsubscribe ::
    "identity_collaborators \<Rightarrow> string \<Rightarrow> BehaviorSubject
      \<Rightarrow> Account promise \<times> BehaviorSubject" where
  "unsubscribe idc mnemonicPhrase s =
     (then_p (then_p (createKeyPair idc mnemonicPhrase) generateAccount)
        (accountRepository_unsubscribe idc), s)"

section \<open>A concrete instance of the collaborators\<close>

text \<open>
  A toy cipher that satisfies the round-trip law: the ciphertext is one character of
  randomness, the password and the cleartext; decryption with another password fails.
  Two password derivations: \<open>demo_password\<close> gives a field name and its lowercase form
  the same password, \<open>exact_password\<close> depends on the name as written. Both refuse the
  empty field name. An envelope is the text \<open>sealed:\<close> followed by the serialised
  password map, and two payloads are known to the toy parser.
\<close>

definition demo_encryptAes256 :: "iv \<Rightarrow> string \<Rightarrow> string \<Rightarrow> error + string" where
  "demo_encryptAes256 r v p = Inr (take 1 (r @ ''0'') @ p @ v)"

definition demo_decryptAes256 :: "string \<Rightarrow> string \<Rightarrow> error + string" where
  "demo_decryptAes256 c p =
     (if c \<noteq> [] \<and> take (length p) (tl c) = p then Inr (drop (length p) (tl c))
      else Inl DecryptionError)"

definition demo_password :: "string \<Rightarrow> error + string" where
  "demo_password k = (if k = [] then Inl DerivationError else Inr (''pw-'' @ toLowerCase k))"

definition exact_password :: "string \<Rightarrow> error + string" where
  "exact_password k = (if k = [] then Inl DerivationError else Inr (''pw-'' @ k))"

definition demo_decryptMessage :: "string \<Rightarrow> string \<Rightarrow> error + string" where
  "demo_decryptMessage pk m =
     (if take 7 m = ''sealed:'' then Inr (drop 7 m) else Inl DecryptionError)"

definition demo_JSON_parse :: "string \<Rightarrow> error + jsmap" where
  "demo_JSON_parse s =
     (if s = ''{}'' then Inr []
      else if s = ''{name,email}'' then Inr [(''name'', ''pw-name''), (''email'', ''stale'')]
      else Inl SyntaxError)"

definition demo_env :: "jsmap collaborators" where
  "demo_env =
     \<lparr>generatePasswordForFiled = demo_password,
      encryptAes256 = demo_encryptAes256,
      decryptAes256 = demo_decryptAes256,
      decryptMessage = demo_decryptMessage,
      JSON_parse = demo_JSON_parse,
      jsonToMap = Inr\<rparr>"

definition exact_env :: "jsmap collaborators" where
  "exact_env = demo_env\<lparr>generatePasswordForFiled := exact_password\<rparr>"

definition demo_rnd :: "nat \<Rightarrow> iv" where
  "demo_rnd i = (if even i then ''a'' else ''b'')"

definition alice :: ProfileManager where
  "alice = \<lparr>account = new_Account ''pk-alice''\<rparr>"

definition empty_store :: store where
  "empty_store = \<lparr>vaults = Map.empty, failure = None, calls = []\<rparr>"

definition bob_store :: store where
  "bob_store =
     \<lparr>vaults = [''pk-bob'' \<mapsto> [(''name'', ''apw-nameBob''), (''email'', ''bpw-emailb@x.com''),
                             (''phone'', ''apw-phone555'')]],
      failure = None, calls = []\<rparr>"

definition down_store :: store where
  "down_store = bob_store\<lparr>failure := Some StoreError\<rparr>"

definition corrupt_store :: store where
  "corrupt_store =
     \<lparr>vaults = [''pk-alice'' \<mapsto> [(''name'', ''apw-nameAlice''), (''email'', ''garbled'')]],
      failure = None, calls = []\<rparr>"

definition demo_idc :: identity_collaborators where
  "demo_idc =
     \<lparr>createKeyPair = (\<lambda>m. if m = [] then Rejected DerivationError
                            else Resolved \<lparr>keyPair_privateKey = ''sk-'' @ m,
                                           keyPair_publicKey = ''pk-'' @ m\<rparr>),
      signMessage = (\<lambda>m. Resolved (''signed:'' @ m)),
      accountRepository_registration = Resolved,
      accountRepository_checkAccount = Resolved,
      accountRepository_unsubscribe = (\<lambda>a. Rejected NotFoundError)\<rparr>"

definition no_identity :: BehaviorSubject where
  "no_identity = \<lparr>currentValue = new_Account [], emitted = []\<rparr>"

section \<open>Facts about maps and lowercasing\<close>

lemma Map_set_keys: "fst ` set (Map_set k v m) = insert k (fst ` set m)"
proof (induction m)
  case Nil
  then show ?case by simp
next
  case (Cons a m)
  obtain k' v' where a: "a = (k', v')" by (cases a)
  show ?case
  proof (cases "k = k'")
    case True
    then show ?thesis by (simp add: a)
  next
    case False
    then show ?thesis using Cons.IH by (simp add: a insert_commute)
  qed
qed

lemma Map_set_fresh: "k \<notin> fst ` set m \<Longrightarrow> Map_set k v m = m @ [(k, v)]"
  by (induction m) auto

lemma map_of_Map_set: "map_of (Map_set k v m) = (map_of m)(k \<mapsto> v)"
  by (induction m) (auto simp: fun_eq_iff)

lemma Map_has_iff: "Map_has k m \<longleftrightarrow> map_of m k \<noteq> None"
  by (simp add: Map_has_def map_of_eq_None_iff)

lemma toLowerCase_char_idem: "toLowerCase_char (toLowerCase_char c) = toLowerCase_char c"
proof -
  have "(of_char c :: nat) < 256" by simp
  then show ?thesis
    by (auto simp: toLowerCase_char_def Let_def)
qed

lemma toLowerCase_idem: "toLowerCase (toLowerCase s) = toLowerCase s"
  by (simp add: toLowerCase_def toLowerCase_char_idem)

lemma forEach_lookup:
  "distinct (map fst pm) \<Longrightarrow>
   map_of (getAuthorizedData_forEach env raw pm acc) k =
     (case map_of pm k of
        None \<Rightarrow> map_of acc k
      | Some p \<Rightarrow>
          (case map_of raw k of
             None \<Rightarrow> map_of acc k
           | Some c \<Rightarrow> (case decryptAes256 env c p of Inl e \<Rightarrow> map_of acc k | Inr v \<Rightarrow> Some v)))"
proof (induction pm arbitrary: acc)
  case Nil
  then show ?case by simp
next
  case (Cons a pm)
  obtain key val where a: "a = (key, val)" by (cases a)
  from Cons.prems a have fresh: "map_of pm key = None" and d: "distinct (map fst pm)"
    by (auto simp: map_of_eq_None_iff)
  show ?case
    using fresh
    by (auto simp: a Cons.IH[OF d] Map_has_iff Map_get_def map_of_Map_set
        split: option.splits sum.splits)
qed

lemma forEach_keys:
  "fst ` set (getAuthorizedData_forEach env raw pm acc)
     \<subseteq> fst ` set acc \<union> (fst ` set pm \<inter> fst ` set raw)"
proof (induction pm arbitrary: acc)
  case Nil
  then show ?case by simp
next
  case (Cons a pm)
  obtain key val where a: "a = (key, val)" by (cases a)
  show ?case
    unfolding a getAuthorizedData_forEach.simps
    by (rule subset_trans[OF Cons.IH])
       (auto simp: Map_has_def Map_set_keys split: option.splits sum.splits)
qed

section \<open>Reading a disclosed vault\<close>

lemma envelope_opened:
  assumes "decryptMessage env pk m = Inr s" "JSON_parse env s = Inr j"
    "jsonToMap env j = Inr pm" "failure st = None"
  shows "getAuthorizedData env pk m st =
           (Resolved (getAuthorizedData_forEach env (vault_of st pk) pm []),
            st\<lparr>calls := calls st @ [GetData pk]\<rparr>)"
  using assms
  by (simp add: getAuthorizedData_def getRawData_def ClientDataRepository_getData_def)

text \<open>
  Claim C3. In \<open>getAuthorizedData\<close> a symmetric decryption failure on one field never
  fails the call. Once the envelope is opened and the store answers, the call resolves,
  and the vault it returns holds exactly the fields that are in the disclosed password
  map and in the raw vault and that decrypt: each with its cleartext, a field whose
  decryption fails left out.
\<close>
theorem getAuthorizedData_skips_failing_fields:
  assumes "decryptMessage env pk m = Inr s" and "JSON_parse env s = Inr j"
    and "jsonToMap env j = Inr pm" and "distinct (map fst pm)" and "failure st = None"
  shows "\<exists>r st'. getAuthorizedData env pk m st = (Resolved r, st') \<and>
           (\<forall>k. Map_get k r =
              (case Map_get k pm of
                 None \<Rightarrow> None
               | Some p \<Rightarrow>
                   (case Map_get k (vault_of st pk) of
                      None \<Rightarrow> None
                    | Some c \<Rightarrow>
                        (case decryptAes256 env c p of Inl e \<Rightarrow> None | Inr v \<Rightarrow> Some v))))"
  unfolding envelope_opened[OF assms(1,2,3,5)] Map_get_def
  by (simp add: forEach_lookup[OF assms(4)] split: option.splits sum.splits)

lemma bob_envelope:
  "decryptMessage demo_env ''pk-bob'' ''sealed:{name,email}'' = Inr ''{name,email}''"
  "JSON_parse demo_env ''{name,email}'' = Inr [(''name'', ''pw-name''), (''email'', ''stale'')]"
  "jsonToMap demo_env [(''name'', ''pw-name''), (''email'', ''stale'')]
     = Inr [(''name'', ''pw-name''), (''email'', ''stale'')]"
  by (simp_all add: demo_env_def demo_decryptMessage_def demo_JSON_parse_def)

lemma empty_envelope:
  "decryptMessage demo_env ''pk-bob'' ''sealed:{}'' = Inr ''{}''"
  "JSON_parse demo_env ''{}'' = Inr []"
  "jsonToMap demo_env [] = Inr []"
  by (simp_all add: demo_env_def demo_decryptMessage_def demo_JSON_parse_def)

lemma bob_store_up: "failure bob_store = None"
  by (simp add: bob_store_def)

theorem getAuthorizedData_skips_failing_fields_witness:
  "decryptMessage demo_env ''pk-bob'' ''sealed:{name,email}'' = Inr ''{name,email}'' \<and>
   JSON_parse demo_env ''{name,email}'' = Inr [(''name'', ''pw-name''), (''email'', ''stale'')] \<and>
   jsonToMap demo_env [(''name'', ''pw-name''), (''email'', ''stale'')]
     = Inr [(''name'', ''pw-name''), (''email'', ''stale'')] \<and>
   distinct (map fst [(''name'', ''pw-name''), (''email'', ''stale'')]) \<and>
   failure bob_store = None \<and>
   (\<exists>r st'. getAuthorizedData demo_env ''pk-bob'' ''sealed:{name,email}'' bob_store
               = (Resolved r, st') \<and>
      (\<forall>k. Map_get k r =
         (case Map_get k [(''name'', ''pw-name''), (''email'', ''stale'')] of
            None \<Rightarrow> None
          | Some p \<Rightarrow>
              (case Map_get k (vault_of bob_store ''pk-bob'') of
                 None \<Rightarrow> None
               | Some c \<Rightarrow>
                   (case decryptAes256 demo_env c p of Inl e \<Rightarrow> None | Inr v \<Rightarrow> Some v)))))"
proof -
  have d: "distinct (map fst [(''name'', ''pw-name''), (''email'', ''stale'')])" by simp
  show ?thesis
    using getAuthorizedData_skips_failing_fields[OF bob_envelope d bob_store_up]
      bob_envelope d bob_store_up
    by blast
qed

lemma getAuthorizedData_example:
  "fst (getAuthorizedData demo_env ''pk-bob'' ''sealed:{name,email}'' bob_store)
     = Resolved [(''name'', ''Bob'')]"
  by code_simp

text \<open>
  Claim C5. The field names of the vault returned by \<open>getAuthorizedData\<close> are among the
  names of the disclosed password map that the stored raw vault has too, and an empty
  password map gives the empty vault whatever the store holds.
\<close>
theorem getAuthorizedData_keys:
  assumes "decryptMessage env pk m = Inr s" and "JSON_parse env s = Inr j"
    and "jsonToMap env j = Inr pm" and "failure st = None"
  shows "\<exists>r st'. getAuthorizedData env pk m st = (Resolved r, st') \<and>
           fst ` set r \<subseteq> fst ` set pm \<inter> fst ` set (vault_of st pk) \<and>
           (pm = [] \<longrightarrow> r = [])"
proof -
  have "fst ` set (getAuthorizedData_forEach env (vault_of st pk) pm [])
          \<subseteq> fst ` set pm \<inter> fst ` set (vault_of st pk)"
    using forEach_keys[of env "vault_of st pk" pm "[]"] by simp
  then show ?thesis
    unfolding envelope_opened[OF assms] by auto
qed

theorem getAuthorizedData_keys_witness:
  "decryptMessage demo_env ''pk-bob'' ''sealed:{}'' = Inr ''{}'' \<and>
   JSON_parse demo_env ''{}'' = Inr [] \<and> jsonToMap demo_env [] = Inr [] \<and>
   failure bob_store = None \<and>
   (\<exists>r st'. getAuthorizedData demo_env ''pk-bob'' ''sealed:{}'' bob_store = (Resolved r, st') \<and>
      fst ` set r \<subseteq> fst ` set ([] :: jsmap) \<inter> fst ` set (vault_of bob_store ''pk-bob'') \<and>
      (([] :: jsmap) = [] \<longrightarrow> r = []))"
  using getAuthorizedData_keys[OF empty_envelope bob_store_up] empty_envelope bob_store_up
  by blast

text \<open>
  Claim C10. When the envelope cannot be decrypted, or its plaintext is not valid JSON,
  \<open>getAuthorizedData\<close> is rejected with that error and the store is left as it was: it
  has received no call, so the raw vault was not fetched.
\<close>
theorem getAuthorizedData_envelope_failure:
  assumes "decryptMessage env pk m = Inl e \<or>
           (\<exists>s. decryptMessage env pk m = Inr s \<and> JSON_parse env s = Inl e)"
  shows "getAuthorizedData env pk m st = (Rejected e, st)"
  using assms by (auto simp: getAuthorizedData_def)

theorem getAuthorizedData_envelope_failure_witness:
  "(decryptMessage demo_env ''pk-bob'' ''sealed:{oops'' = Inl SyntaxError \<or>
    (\<exists>s. decryptMessage demo_env ''pk-bob'' ''sealed:{oops'' = Inr s \<and>
         JSON_parse demo_env s = Inl SyntaxError)) \<and>
   getAuthorizedData demo_env ''pk-bob'' ''sealed:{oops'' bob_store = (Rejected SyntaxError, bob_store) \<and>
   (decryptMessage demo_env ''pk-bob'' ''garbage'' = Inl DecryptionError \<or>
    (\<exists>s. decryptMessage demo_env ''pk-bob'' ''garbage'' = Inr s \<and>
         JSON_parse demo_env s = Inl DecryptionError)) \<and>
   getAuthorizedData demo_env ''pk-bob'' ''garbage'' bob_store = (Rejected DecryptionError, bob_store)"
proof -
  have h1: "decryptMessage demo_env ''pk-bob'' ''sealed:{oops'' = Inl SyntaxError \<or>
    (\<exists>s. decryptMessage demo_env ''pk-bob'' ''sealed:{oops'' = Inr s \<and>
         JSON_parse demo_env s = Inl SyntaxError)"
    by (simp add: demo_env_def demo_decryptMessage_def demo_JSON_parse_def)
  have h2: "decryptMessage demo_env ''pk-bob'' ''garbage'' = Inl DecryptionError \<or>
    (\<exists>s. decryptMessage demo_env ''pk-bob'' ''garbage'' = Inr s \<and>
         JSON_parse demo_env s = Inl DecryptionError)"
    by (simp add: demo_env_def demo_decryptMessage_def demo_JSON_parse_def)
  show ?thesis
    using getAuthorizedData_envelope_failure[OF h1, of bob_store]
      getAuthorizedData_envelope_failure[OF h2, of bob_store] h1 h2
    by blast
qed

lemma getAuthorizedData_store_failure:
  assumes "decryptMessage env pk m = Inr s" and "JSON_parse env s = Inr j"
    and "jsonToMap env j = Inr pm" and "failure st = Some e"
  shows "fst (getAuthorizedData env pk m st) = Pending"
  using assms
  by (simp add: getAuthorizedData_def getRawData_def ClientDataRepository_getData_def)

lemma getData_store_failure:
  assumes "failure st = Some e"
  shows "fst (getData env this st) = Rejected e"
  using assms
  by (simp add: getData_def getRawData_def ClientDataRepository_getData_def)

text \<open>
  Claim C8. The claim is that a failure of the store's \<open>getData\<close> during
  \<open>getAuthorizedData\<close> rejects the call with that error. With the store unreachable the
  promise of \<open>getAuthorizedData\<close> is never settled, while \<open>getData\<close> of the same manager
  is rejected with the store's error.
\<close>
theorem getAuthorizedData_store_failure_never_settles:
  "fst (getAuthorizedData demo_env ''pk-bob'' ''sealed:{name,email}'' down_store) = Pending \<and>
   fst (getData demo_env \<lparr>account = new_Account ''pk-bob''\<rparr> down_store) = Rejected StoreError"
  by code_simp

section \<open>Publishing the current identity\<close>

lemma then_p_Resolved:
  "then_p p f = Resolved y \<longleftrightarrow> (\<exists>x. p = Resolved x \<and> f x = Resolved y)"
  by (cases p) auto

lemma then_s_Resolved:
  "then_s p f s = (Resolved y, s') \<longleftrightarrow> (\<exists>x. p = Resolved x \<and> f x s = (Resolved y, s'))"
  by (cases p) auto

lemma onGetAccount_Resolved:
  "onGetAccount idc acc msg s = (Resolved a, s') \<longleftrightarrow>
     (\<exists>sg. signMessage idc msg = Resolved sg \<and> a = acc\<lparr>message := msg, sig := sg\<rparr> \<and>
           s' = s\<lparr>currentValue := a, emitted := emitted s @ [a]\<rparr>)"
  by (auto simp: onGetAccount_def then_s_Resolved BehaviorSubject_next_def Let_def)

text \<open>
  Claim C7. \<open>registration\<close> and \<open>checkAccount\<close> resolve exactly when the key pair is
  derived, the account repository answers with an account and the message is signed. The
  call then returns the account the repository answered with, with the given message and
  the signature of that message attached; this same account is the new value of the
  subject, replacing the previous one, and it is the one notification added to those
  emitted.
\<close>
theorem registration_checkAccount_publish:
  "(registration idc mnemonicPhrase msg s = (Resolved a, s') \<longleftrightarrow>
      (\<exists>kp acc sg. createKeyPair idc mnemonicPhrase = Resolved kp \<and>
         accountRepository_registration idc (new_Account (keyPair_publicKey kp)) = Resolved acc \<and>
         signMessage idc msg = Resolved sg \<and> a = acc\<lparr>message := msg, sig := sg\<rparr> \<and>
         s' = s\<lparr>currentValue := a, emitted := emitted s @ [a]\<rparr>)) \<and>
   (checkAccount idc mnemonicPhrase msg s = (Resolved a, s') \<longleftrightarrow>
      (\<exists>kp acc sg. createKeyPair idc mnemonicPhrase = Resolved kp \<and>
         accountRepository_checkAccount idc (new_Account (keyPair_publicKey kp)) = Resolved acc \<and>
         signMessage idc msg = Resolved sg \<and> a = acc\<lparr>message := msg, sig := sg\<rparr> \<and>
         s' = s\<lparr>currentValue := a, emitted := emitted s @ [a]\<rparr>))"
  by (auto simp: registration_def checkAccount_def getAccount_def generateAccount_def
      then_s_Resolved then_p_Resolved onGetAccount_Resolved)

lemma demo_idc_answers:
  "createKeyPair demo_idc ''alice''
     = Resolved \<lparr>keyPair_privateKey = ''sk-alice'', keyPair_publicKey = ''pk-alice''\<rparr>"
  "accountRepository_registration demo_idc
     (new_Account (keyPair_publicKey \<lparr>keyPair_privateKey = ''sk-alice'', keyPair_publicKey = ''pk-alice''\<rparr>))
     = Resolved \<lparr>publicKey = ''pk-alice'', message = [], sig = []\<rparr>"
  "accountRepository_checkAccount demo_idc
     (new_Account (keyPair_publicKey \<lparr>keyPair_privateKey = ''sk-alice'', keyPair_publicKey = ''pk-alice''\<rparr>))
     = Resolved \<lparr>publicKey = ''pk-alice'', message = [], sig = []\<rparr>"
  "signMessage demo_idc ''hello'' = Resolved ''signed:hello''"
  by (simp_all add: demo_idc_def new_Account_def)

lemma demo_published:
  "\<lparr>publicKey = ''pk-alice'', message = ''hello'', sig = ''signed:hello''\<rparr>
     = \<lparr>publicKey = ''pk-alice'', message = [], sig = []\<rparr>\<lparr>message := ''hello'', sig := ''signed:hello''\<rparr>"
  "\<lparr>currentValue = \<lparr>publicKey = ''pk-alice'', message = ''hello'', sig = ''signed:hello''\<rparr>,
    emitted = [\<lparr>publicKey = ''pk-alice'', message = ''hello'', sig = ''signed:hello''\<rparr>]\<rparr>
     = no_identity\<lparr>currentValue := \<lparr>publicKey = ''pk-alice'', message = ''hello'', sig = ''signed:hello''\<rparr>,
         emitted := emitted no_identity
           @ [\<lparr>publicKey = ''pk-alice'', message = ''hello'', sig = ''signed:hello''\<rparr>]\<rparr>"
  by (simp_all add: no_identity_def)

theorem registration_checkAccount_publish_witness:
  "createKeyPair demo_idc ''alice''
     = Resolved \<lparr>keyPair_privateKey = ''sk-alice'', keyPair_publicKey = ''pk-alice''\<rparr> \<and>
   signMessage demo_idc ''hello'' = Resolved ''signed:hello'' \<and>
   registration demo_idc ''alice'' ''hello'' no_identity =
     (Resolved \<lparr>publicKey = ''pk-alice'', message = ''hello'', sig = ''signed:hello''\<rparr>,
      \<lparr>currentValue = \<lparr>publicKey = ''pk-alice'', message = ''hello'', sig = ''signed:hello''\<rparr>,
       emitted = [\<lparr>publicKey = ''pk-alice'', message = ''hello'', sig = ''signed:hello''\<rparr>]\<rparr>) \<and>
   checkAccount demo_idc ''alice'' ''hello'' no_identity =
     (Resolved \<lparr>publicKey = ''pk-alice'', message = ''hello'', sig = ''signed:hello''\<rparr>,
      \<lparr>currentValue = \<lparr>publicKey = ''pk-alice'', message = ''hello'', sig = ''signed:hello''\<rparr>,
       emitted = [\<lparr>publicKey = ''pk-alice'', message = ''hello'', sig = ''signed:hello''\<rparr>]\<rparr>)"
  using registration_checkAccount_publish[of demo_idc "''alice''" "''hello''" no_identity
      "\<lparr>publicKey = ''pk-alice'', message = ''hello'', sig = ''signed:hello''\<rparr>"
      "\<lparr>currentValue = \<lparr>publicKey = ''pk-alice'', message = ''hello'', sig = ''signed:hello''\<rparr>,
        emitted = [\<lparr>publicKey = ''pk-alice'', message = ''hello'', sig = ''signed:hello''\<rparr>]\<rparr>"]
    demo_idc_answers demo_published
  by blast

text \<open>
  Claim C9. \<open>unsubscribe\<close> leaves the current identity as it was, whether it succeeds or
  fails: the value of the subject is unchanged and no notification is emitted.
\<close>
theorem unsubscribe_keeps_identity:
  "snd (unsubscribe idc mnemonicPhrase s) = s"
  by (simp add: unsubscribe_def)

section \<open>The loop of prepareData\<close>

lemma forEach_append:
  "prepareData_forEach env b rnd i (xs @ ys) acc =
     (case prepareData_forEach env b rnd i xs acc of
        Inl e \<Rightarrow> Inl e
      | Inr acc' \<Rightarrow> prepareData_forEach env b rnd (i + length xs) ys acc')"
  by (induction xs arbitrary: i acc) (auto split: sum.splits)

lemma forEach_stops:
  assumes "j < length data" and "data ! j = (k, v)"
    and "prepareData_forEach env b rnd i (take j data) acc = Inr acc'"
    and "generatePasswordForFiled env k = Inl e \<or>
         (\<exists>p. generatePasswordForFiled env k = Inr p \<and>
              (if b then encryptAes256 env (rnd (i + j)) v p else decryptAes256 env v p) = Inl e)"
  shows "prepareData_forEach env b rnd i data acc = Inl e"
proof -
  have "data = take j data @ (k, v) # drop (Suc j) data"
    using id_take_nth_drop[OF assms(1)] assms(2) by simp
  then have "prepareData_forEach env b rnd i data acc =
      prepareData_forEach env b rnd (i + j) ((k, v) # drop (Suc j) data) acc'"
    using assms(1,3) forEach_append[of env b rnd i "take j data" "(k, v) # drop (Suc j) data" acc]
    by (simp add: min_absorb2)
  also have "\<dots> = Inl e"
    using assms(4) by auto
  finally show ?thesis .
qed

lemma forEach_fails:
  assumes "j < length data" and "data ! j = (k, v)"
    and "generatePasswordForFiled env k = Inl e \<or>
         (\<exists>p. generatePasswordForFiled env k = Inr p \<and>
              (if b then encryptAes256 env (rnd (i + j)) v p else decryptAes256 env v p) = Inl e)"
  shows "\<exists>e'. prepareData_forEach env b rnd i data acc = Inl e'"
proof (cases "prepareData_forEach env b rnd i (take j data) acc")
  case (Inl e')
  have "data = take j data @ drop j data" by simp
  then have "prepareData_forEach env b rnd i data acc = Inl e'"
    using Inl forEach_append[of env b rnd i "take j data" "drop j data" acc] by simp
  then show ?thesis by blast
next
  case (Inr acc')
  from forEach_stops[OF assms(1,2) Inr assms(3)] show ?thesis by blast
qed

text \<open>
  Claim C6. When the password derivation or the encryption of any field of the input
  fails, \<open>updateData\<close> is rejected and the store is left as it was: \<open>updateData\<close> of the
  store has not been called and nothing has been persisted.
\<close>
theorem updateData_atomic:
  assumes "j < length data" and "data ! j = (k, v)"
    and "generatePasswordForFiled env k = Inl e \<or>
         (\<exists>p. generatePasswordForFiled env k = Inr p \<and> encryptAes256 env (rnd j) v p = Inl e)"
  shows "\<exists>e'. updateData env this data rnd st = (Rejected e', st)"
proof -
  from assms(3) have "generatePasswordForFiled env k = Inl e \<or>
         (\<exists>p. generatePasswordForFiled env k = Inr p \<and>
              (if True then encryptAes256 env (rnd (0 + j)) v p else decryptAes256 env v p) = Inl e)"
    by simp
  from forEach_fails[where b = True and i = 0 and rnd = rnd and acc = "[]", OF assms(1,2) this]
  obtain e' where "prepareData_forEach env True rnd 0 data [] = Inl e'" by blast
  then show ?thesis by (simp add: updateData_def prepareData_def)
qed

theorem updateData_atomic_witness:
  "1 < length [(''name'', ''x''), ([], ''y'')] \<and>
   [(''name'', ''x''), ([], ''y'')] ! 1 = ([], ''y'') \<and>
   (generatePasswordForFiled demo_env [] = Inl DerivationError \<or>
    (\<exists>p. generatePasswordForFiled demo_env [] = Inr p \<and>
         encryptAes256 demo_env (demo_rnd 1) ''y'' p = Inl DerivationError)) \<and>
   (\<exists>e'. updateData demo_env alice [(''name'', ''x''), ([], ''y'')] demo_rnd empty_store
            = (Rejected e', empty_store))"
proof -
  have h1: "1 < length [(''name'', ''x''), ([], ''y'')]" by simp
  have h2: "[(''name'', ''x''), ([], ''y'')] ! 1 = ([], ''y'')" by simp
  have h3: "generatePasswordForFiled demo_env [] = Inl DerivationError \<or>
    (\<exists>p. generatePasswordForFiled demo_env [] = Inr p \<and>
         encryptAes256 demo_env (demo_rnd 1) ''y'' p = Inl DerivationError)"
    by (simp add: demo_env_def demo_password_def)
  from updateData_atomic[where rnd = demo_rnd and j = 1 and this = alice and st = empty_store,
      OF h1 h2 h3] h1 h2 h3
  show ?thesis by blast
qed

text \<open>
  Claim C4. When the decryption of a field of the stored vault fails, \<open>getData\<close> is
  rejected and returns no vault; when the fields before it in the vault went through,
  it is rejected with the error of that decryption.
\<close>
theorem getData_decryption_failure:
  assumes "failure st = None"
    and "j < length (vault_of st (publicKey (account this)))"
    and "vault_of st (publicKey (account this)) ! j = (k, c)"
    and "generatePasswordForFiled env k = Inr p" and "decryptAes256 env c p = Inl e"
  shows "(\<exists>e'. fst (getData env this st) = Rejected e') \<and>
         ((\<exists>acc. prepareData_forEach env False (\<lambda>_. []) 0
                   (take j (vault_of st (publicKey (account this)))) [] = Inr acc)
            \<longrightarrow> fst (getData env this st) = Rejected e)"
proof -
  let ?raw = "vault_of st (publicKey (account this))"
  have g: "fst (getData env this st) =
      (case prepareData_forEach env False (\<lambda>_. []) 0 ?raw [] of
         Inl e \<Rightarrow> Rejected e | Inr r \<Rightarrow> Resolved r)"
    using assms(1)
    by (simp add: getData_def getRawData_def ClientDataRepository_getData_def prepareData_def)
  have f: "generatePasswordForFiled env k = Inl e \<or>
         (\<exists>p. generatePasswordForFiled env k = Inr p \<and>
              (if False then encryptAes256 env ((\<lambda>_. []) (0 + j)) c p else decryptAes256 env c p) = Inl e)"
    using assms(4,5) by simp
  from forEach_fails[where b = False and i = 0 and rnd = "\<lambda>_. []" and acc = "[]", OF assms(2,3) f]
  have 1: "\<exists>e'. fst (getData env this st) = Rejected e'"
    unfolding g by auto
  have 2: "fst (getData env this st) = Rejected e"
    if "prepareData_forEach env False (\<lambda>_. []) 0 (take j ?raw) [] = Inr acc" for acc
    using forEach_stops[where b = False and i = 0 and rnd = "\<lambda>_. []", OF assms(2,3) that f]
    unfolding g by simp
  from 1 2 show ?thesis by blast
qed

lemma corrupt_store_vault:
  "vault_of corrupt_store (publicKey (account alice))
     = [(''name'', ''apw-nameAlice''), (''email'', ''garbled'')]"
  by (simp add: corrupt_store_def alice_def new_Account_def vault_of_def)

theorem getData_decryption_failure_witness:
  "failure corrupt_store = None \<and>
   1 < length (vault_of corrupt_store (publicKey (account alice))) \<and>
   vault_of corrupt_store (publicKey (account alice)) ! 1 = (''email'', ''garbled'') \<and>
   generatePasswordForFiled demo_env ''email'' = Inr ''pw-email'' \<and>
   decryptAes256 demo_env ''garbled'' ''pw-email'' = Inl DecryptionError \<and>
   (\<exists>acc. prepareData_forEach demo_env False (\<lambda>_. []) 0
            (take 1 (vault_of corrupt_store (publicKey (account alice)))) [] = Inr acc) \<and>
   fst (getData demo_env alice corrupt_store) = Rejected DecryptionError"
proof -
  have h1: "failure corrupt_store = None" by (simp add: corrupt_store_def)
  have h2: "1 < length (vault_of corrupt_store (publicKey (account alice)))"
    by (simp add: corrupt_store_vault)
  have h3: "vault_of corrupt_store (publicKey (account alice)) ! 1 = (''email'', ''garbled'')"
    by (simp add: corrupt_store_vault)
  have h4: "generatePasswordForFiled demo_env ''email'' = Inr ''pw-email''"
    by code_simp
  have h5: "decryptAes256 demo_env ''garbled'' ''pw-email'' = Inl DecryptionError"
    by code_simp
  have "prepareData_forEach demo_env False (\<lambda>_. []) 0
            [(''name'', ''apw-nameAlice'')] [] = Inr [(''name'', ''Alice'')]"
    by code_simp
  then have h6: "\<exists>acc. prepareData_forEach demo_env False (\<lambda>_. []) 0
            (take 1 (vault_of corrupt_store (publicKey (account alice)))) [] = Inr acc"
    by (simp add: corrupt_store_vault)
  from getData_decryption_failure[OF h1 h2 h3 h4 h5] h1 h2 h3 h4 h5 h6
  show ?thesis by blast
qed

section \<open>Writing the vault and reading it back\<close>

lemma encrypt_pass:
  assumes law: "\<forall>r v p. \<exists>c. encryptAes256 env r v p = Inr c \<and> decryptAes256 env c p = Inr v"
  shows "(\<forall>k\<in>fst ` set F. \<exists>p. generatePasswordForFiled env k = Inr p) \<Longrightarrow>
     distinct (map (toLowerCase \<circ> fst) F) \<Longrightarrow>
     toLowerCase ` fst ` set F \<inter> fst ` set acc = {} \<Longrightarrow>
     \<exists>E. prepareData_forEach env True rnd i F acc = Inr (acc @ E) \<and>
         list_all2 (\<lambda>(k, v) (k', c). k' = toLowerCase k \<and>
            (\<exists>p. generatePasswordForFiled env k = Inr p \<and> decryptAes256 env c p = Inr v)) F E"
proof (induction F arbitrary: i acc)
  case Nil
  then show ?case by simp
next
  case (Cons a F)
  obtain k v where a: "a = (k, v)" by (cases a)
  from Cons.prems(1) a obtain p where p: "generatePasswordForFiled env k = Inr p" by auto
  from law obtain c where c: "encryptAes256 env (rnd i) v p = Inr c" "decryptAes256 env c p = Inr v"
    by blast
  from Cons.prems(3) a have fresh: "toLowerCase k \<notin> fst ` set acc" by auto
  have 1: "\<forall>k\<in>fst ` set F. \<exists>p. generatePasswordForFiled env k = Inr p"
    using Cons.prems(1) by auto
  have 2: "distinct (map (toLowerCase \<circ> fst) F)" using Cons.prems(2) by (simp add: comp_def)
  have 3: "toLowerCase ` fst ` set F \<inter> fst ` set (acc @ [(toLowerCase k, c)]) = {}"
    using Cons.prems(2,3) a by (auto simp: image_iff)
  from Cons.IH[OF 1 2 3, of "Suc i"] obtain E where
    E: "prepareData_forEach env True rnd (Suc i) F (acc @ [(toLowerCase k, c)])
          = Inr ((acc @ [(toLowerCase k, c)]) @ E)"
      "list_all2 (\<lambda>(k, v) (k', c). k' = toLowerCase k \<and>
            (\<exists>p. generatePasswordForFiled env k = Inr p \<and> decryptAes256 env c p = Inr v)) F E"
    by blast
  have "prepareData_forEach env True rnd i (a # F) acc = Inr (acc @ (toLowerCase k, c) # E)"
    using p c E(1) fresh by (simp add: a Map_set_fresh)
  moreover have "list_all2 (\<lambda>(k, v) (k', c). k' = toLowerCase k \<and>
            (\<exists>p. generatePasswordForFiled env k = Inr p \<and> decryptAes256 env c p = Inr v))
            (a # F) ((toLowerCase k, c) # E)"
    using p c(2) E(2) by (simp add: a)
  ultimately show ?case by blast
qed

lemma decrypt_pass:
  assumes "list_all2 (\<lambda>(k, v) (k', c). k' = toLowerCase k \<and>
            (\<exists>p. generatePasswordForFiled env k = Inr p \<and> decryptAes256 env c p = Inr v)) F E"
  shows "(\<forall>k\<in>fst ` set F. generatePasswordForFiled env (toLowerCase k)
                            = generatePasswordForFiled env k) \<Longrightarrow>
     distinct (map (toLowerCase \<circ> fst) F) \<Longrightarrow>
     toLowerCase ` fst ` set F \<inter> fst ` set acc = {} \<Longrightarrow>
     prepareData_forEach env False rnd i E acc
       = Inr (acc @ map (\<lambda>(k, v). (toLowerCase k, v)) F)"
  using assms
proof (induction F arbitrary: i acc E)
  case Nil
  then show ?case by simp
next
  case (Cons a F)
  obtain k v where a: "a = (k, v)" by (cases a)
  from Cons.prems(4) a obtain c E' p where E: "E = (toLowerCase k, c) # E'"
    and p: "generatePasswordForFiled env k = Inr p" "decryptAes256 env c p = Inr v"
    and rest: "list_all2 (\<lambda>(k, v) (k', c). k' = toLowerCase k \<and>
            (\<exists>p. generatePasswordForFiled env k = Inr p \<and> decryptAes256 env c p = Inr v)) F E'"
    by (auto simp: list_all2_Cons1)
  have p': "generatePasswordForFiled env (toLowerCase k) = Inr p"
    using Cons.prems(1) p(1) a by simp
  from Cons.prems(3) a have fresh: "toLowerCase k \<notin> fst ` set acc" by auto
  have 1: "\<forall>k\<in>fst ` set F. generatePasswordForFiled env (toLowerCase k)
                            = generatePasswordForFiled env k"
    using Cons.prems(1) by auto
  have 2: "distinct (map (toLowerCase \<circ> fst) F)" using Cons.prems(2) by (simp add: comp_def)
  have 3: "toLowerCase ` fst ` set F \<inter> fst ` set (acc @ [(toLowerCase k, v)]) = {}"
    using Cons.prems(2,3) a by (auto simp: image_iff)
  show ?case
    using Cons.IH[OF 1 2 3 rest, of "Suc i"] p' p(2) fresh
    by (simp add: E a toLowerCase_idem Map_set_fresh)
qed

lemma demo_cipher:
  "\<exists>c. demo_encryptAes256 r v p = Inr c \<and> demo_decryptAes256 c p = Inr v"
  by (cases r) (simp_all add: demo_encryptAes256_def demo_decryptAes256_def)

lemma demo_cipher_law:
  "\<forall>r v p. \<exists>c. encryptAes256 demo_env r v p = Inr c \<and> decryptAes256 demo_env c p = Inr v"
  by (simp add: demo_env_def demo_cipher)

lemma exact_cipher_law:
  "\<forall>r v p. \<exists>c. encryptAes256 exact_env r v p = Inr c \<and> decryptAes256 exact_env c p = Inr v"
  by (simp add: exact_env_def demo_env_def demo_cipher)

lemma demo_password_lower:
  "k \<noteq> [] \<Longrightarrow> generatePasswordForFiled demo_env k = Inr (''pw-'' @ toLowerCase k) \<and>
     generatePasswordForFiled demo_env (toLowerCase k) = Inr (''pw-'' @ toLowerCase k)"
  by (simp add: demo_env_def demo_password_def toLowerCase_idem) (simp add: toLowerCase_def)

lemma stored_vault:
  assumes "failure st = None"
  shows "ClientDataRepository_updateData pk E st =
           (Resolved E, st\<lparr>vaults := (vaults st)(pk \<mapsto> E), calls := calls st @ [UpdateData pk E]\<rparr>)"
    and "fst (getData env this (st\<lparr>vaults := (vaults st)(publicKey (account this) \<mapsto> E), calls := cs\<rparr>))
           = prepareData env E False (\<lambda>_. [])"
  using assms
  by (simp_all add: ClientDataRepository_updateData_def getData_def getRawData_def
      ClientDataRepository_getData_def vault_of_def)

text \<open>
  Claim C1, as amended. With a cipher that decrypts what it encrypted and a store that is
  reachable, \<open>updateData F\<close> followed by \<open>getData\<close> under the same identity returns
  \<open>F\<close> with every field name lowercased (so \<open>F\<close> itself when its names are lowercase
  already), provided the password derivation succeeds on every field name, gives the name
  and its lowercase form the same password, and no two names of \<open>F\<close> coincide after
  lowercasing.
\<close>
theorem updateData_getData_roundtrip:
  assumes law: "\<forall>r v p. \<exists>c. encryptAes256 env r v p = Inr c \<and> decryptAes256 env c p = Inr v"
    and gen: "\<forall>k\<in>fst ` set F. \<exists>p. generatePasswordForFiled env k = Inr p \<and>
                generatePasswordForFiled env (toLowerCase k) = Inr p"
    and dist: "distinct (map (toLowerCase \<circ> fst) F)"
    and up: "failure st = None"
  shows "\<exists>c st1. updateData env this F rnd st = (Resolved c, st1) \<and>
           fst (getData env this st1) = Resolved (map (\<lambda>(k, v). (toLowerCase k, v)) F)"
proof -
  have g1: "\<forall>k\<in>fst ` set F. \<exists>p. generatePasswordForFiled env k = Inr p"
    using gen by blast
  have g2: "\<forall>k\<in>fst ` set F. generatePasswordForFiled env (toLowerCase k)
                               = generatePasswordForFiled env k"
    using gen by fastforce
  have e: "toLowerCase ` fst ` set F \<inter> fst ` set ([] :: jsmap) = {}" by simp
  from encrypt_pass[OF law g1 dist e, of rnd 0] obtain E where
    E: "prepareData_forEach env True rnd 0 F [] = Inr E"
      "list_all2 (\<lambda>(k, v) (k', c). k' = toLowerCase k \<and>
            (\<exists>p. generatePasswordForFiled env k = Inr p \<and> decryptAes256 env c p = Inr v)) F E"
    by auto
  have d: "prepareData_forEach env False (\<lambda>_. []) 0 E []
             = Inr (map (\<lambda>(k, v). (toLowerCase k, v)) F)"
    using decrypt_pass[OF E(2) g2 dist e, of "\<lambda>_. []" 0] by simp
  let ?st1 = "st\<lparr>vaults := (vaults st)(publicKey (account this) \<mapsto> E),
                calls := calls st @ [UpdateData (publicKey (account this)) E]\<rparr>"
  have "updateData env this F rnd st = (Resolved E, ?st1)"
    using E(1) by (simp add: stored_vault(1)[OF up] updateData_def prepareData_def)
  moreover have "fst (getData env this ?st1) = Resolved (map (\<lambda>(k, v). (toLowerCase k, v)) F)"
    using d by (simp add: stored_vault(2)[OF up] prepareData_def)
  ultimately show ?thesis by blast
qed

theorem updateData_getData_roundtrip_witness:
  "(\<forall>r v p. \<exists>c. encryptAes256 demo_env r v p = Inr c \<and> decryptAes256 demo_env c p = Inr v) \<and>
   (\<exists>p. generatePasswordForFiled demo_env ''Name'' = Inr p \<and>
       generatePasswordForFiled demo_env (toLowerCase ''Name'') = Inr p) \<and>
   (\<exists>p. generatePasswordForFiled demo_env ''email'' = Inr p \<and>
       generatePasswordForFiled demo_env (toLowerCase ''email'') = Inr p) \<and>
   distinct (map (toLowerCase \<circ> fst) [(''Name'', ''x''), (''email'', ''o@x.com'')]) \<and>
   failure empty_store = None \<and>
   (\<exists>c st1. updateData demo_env alice [(''Name'', ''x''), (''email'', ''o@x.com'')] demo_rnd
              empty_store = (Resolved c, st1) \<and>
      fst (getData demo_env alice st1)
        = Resolved (map (\<lambda>(k, v). (toLowerCase k, v)) [(''Name'', ''x''), (''email'', ''o@x.com'')]))"
proof -
  have h2: "\<forall>k\<in>fst ` set [(''Name'', ''x''), (''email'', ''o@x.com'')].
      \<exists>p. generatePasswordForFiled demo_env k = Inr p \<and>
          generatePasswordForFiled demo_env (toLowerCase k) = Inr p"
    using demo_password_lower by simp
  have h3: "distinct (map (toLowerCase \<circ> fst) [(''Name'', ''x''), (''email'', ''o@x.com'')])"
    by code_simp
  have h4: "failure empty_store = None" by (simp add: empty_store_def)
  from h2 have h2':
    "(\<exists>p. generatePasswordForFiled demo_env ''Name'' = Inr p \<and>
        generatePasswordForFiled demo_env (toLowerCase ''Name'') = Inr p) \<and>
     (\<exists>p. generatePasswordForFiled demo_env ''email'' = Inr p \<and>
        generatePasswordForFiled demo_env (toLowerCase ''email'') = Inr p)"
    by simp
  from updateData_getData_roundtrip[OF demo_cipher_law h2 h3 h4, of alice demo_rnd]
    demo_cipher_law h2' h3 h4
  show ?thesis by blast
qed

text \<open>
  Claim C1 as stated fails: the vault \<open>{Name: x}\<close> comes back as \<open>{name: x}\<close>, for a
  cipher that obeys the round-trip law and a store that echoes what was written.
\<close>
theorem updateData_getData_roundtrip_counterexample:
  "fst (getData demo_env alice
          (snd (updateData demo_env alice [(''Name'', ''x'')] demo_rnd empty_store)))
     = Resolved [(''name'', ''x'')] \<and>
   fst (getData demo_env alice
          (snd (updateData demo_env alice [(''Name'', ''x'')] demo_rnd empty_store)))
     \<noteq> Resolved [(''Name'', ''x'')]"
  by code_simp

text \<open>
  What the code does for a password derivation that gives a field name and its lowercase
  form the same password: writing \<open>{n: x}\<close> stores the field under \<open>lowercase n\<close>, and
  reading that field back yields \<open>x\<close>.
\<close>

lemma roundtrip_when_derivation_ignores_case:
  assumes law: "\<forall>r v p. \<exists>c. encryptAes256 env r v p = Inr c \<and> decryptAes256 env c p = Inr v"
    and "generatePasswordForFiled env n = Inr p"
    and "generatePasswordForFiled env (toLowerCase n) = Inr p"
    and up: "failure st = None"
  shows "\<exists>c st1. updateData env this [(n, x)] rnd st = (Resolved c, st1) \<and>
           fst ` set c = {toLowerCase n} \<and>
           (\<exists>r. fst (getData env this st1) = Resolved r \<and> Map_get (toLowerCase n) r = Some x)"
proof -
  from law obtain c where c: "encryptAes256 env (rnd 0) x p = Inr c" "decryptAes256 env c p = Inr x"
    by blast
  let ?E = "[(toLowerCase n, c)]"
  let ?st1 = "st\<lparr>vaults := (vaults st)(publicKey (account this) \<mapsto> ?E),
                calls := calls st @ [UpdateData (publicKey (account this)) ?E]\<rparr>"
  have "updateData env this [(n, x)] rnd st = (Resolved ?E, ?st1)"
    using c(1) assms(2) by (simp add: stored_vault(1)[OF up] updateData_def prepareData_def)
  moreover have "fst (getData env this ?st1) = Resolved [(toLowerCase n, x)]"
    using c(2) assms(3)
    by (simp add: stored_vault(2)[OF up] prepareData_def toLowerCase_idem)
  ultimately show ?thesis by (simp add: Map_get_def)
qed

text \<open>
  Claim C2. The claim is that the field name is lowercased on every write and on every
  password derivation, so that writing \<open>{Name: x}\<close> and reading \<open>name\<close> yields \<open>x\<close> for
  every deterministic password derivation. \<open>prepareData\<close> lowercases the name it stores
  under and derives the password from the name as written. With the deterministic
  derivation \<open>exact_password\<close> and a cipher that obeys the round-trip law, the write stores
  \<open>name\<close> encrypted under the password of \<open>Name\<close>; the read derives the password of
  \<open>name\<close>, the decryption fails and \<open>getData\<close> is rejected.
\<close>
theorem mixed_case_write_read_back_rejected:
  "generatePasswordForFiled exact_env ''Name'' = Inr ''pw-Name'' \<and>
   generatePasswordForFiled exact_env ''name'' = Inr ''pw-name'' \<and>
   fst (updateData exact_env alice [(''Name'', ''x'')] demo_rnd empty_store)
     = Resolved [(''name'', ''apw-Namex'')] \<and>
   decryptAes256 exact_env ''apw-Namex'' ''pw-Name'' = Inr ''x'' \<and>
   fst (getData exact_env alice
          (snd (updateData exact_env alice [(''Name'', ''x'')] demo_rnd empty_store)))
     = Rejected DecryptionError"
  by code_simp

end
